theory Spec2Isabelle
  imports Complex_Main "HOL-Library.List_Lexorder" "HOL-Library.Char_ord" "HOL-Library.Sublist"
begin

section \<open>Geometries\<close>

text \<open>
  The dashboard script \<^verbatim>\<open>streamlit_app.py\<close> reads region boundaries as shapely
  geometries. A coordinate is a tuple of numbers: x, y, and whatever further components
  the boundary file carries (a z value, a measure); a planar coordinate has none. The
  numbers are only moved around by the flattener, never computed with, so their type
  is left open. A polygon has an exterior ring and interior rings (holes); a
  multi-polygon is an ordered collection of polygons. The other variants stand for
  every value that is an instance of neither class, the missing geometry of a row
  included.
\<close>

datatype 'a coord = Coord (x_of: 'a) (y_of: 'a) (higher: "'a list")

abbreviation XY :: "'a \<Rightarrow> 'a \<Rightarrow> 'a coord" where
  "XY x y \<equiv> Coord x y []"

abbreviation XYZ :: "'a \<Rightarrow> 'a \<Rightarrow> 'a \<Rightarrow> 'a coord" where
  "XYZ x y z \<equiv> Coord x y [z]"

text \<open>The coordinate as the tuple Python sees.\<close>

definition tuple_of :: "'a coord \<Rightarrow> 'a list" where
  "tuple_of c = x_of c # y_of c # higher c"

record 'a polygon =
  exterior :: "'a coord list"
  interiors :: "'a coord list list"

datatype 'a geometry =
    Polygon "'a polygon"
  | MultiPolygon (geoms: "'a polygon list")
  | Point "'a coord"
  | LineString "'a coord list"
  | GeometryCollection "'a geometry list"
  | NoGeometry

text \<open>The two \<^verbatim>\<open>isinstance\<close> tests of the flattener.\<close>

fun isinstance_Polygon :: "'a geometry \<Rightarrow> bool" where
  "isinstance_Polygon (Polygon p) = True"
| "isinstance_Polygon g = False"

fun isinstance_MultiPolygon :: "'a geometry \<Rightarrow> bool" where
  "isinstance_MultiPolygon (MultiPolygon ps) = True"
| "isinstance_MultiPolygon g = False"

section \<open>Python sequences\<close>

datatype py_error = IndexError | ValueError | KeyError

text \<open>
  \<^verbatim>\<open>zip(*rows)\<close> on a sequence of tuples: no tuple at all gives nothing, and otherwise
  it gives one tuple per position that every row has, holding the rows' components at
  that position.
\<close>

definition zip_star :: "'a list list \<Rightarrow> 'a list list" where
  "zip_star rows =
     (if rows = [] then []
      else map (\<lambda>i. map (\<lambda>row. row ! i) rows) [0 ..< Min (set (map length rows))])"

text \<open>\<^verbatim>\<open>seq[i]\<close> for a literal index \<open>i \<ge> 0\<close>: out of range raises \<^verbatim>\<open>IndexError\<close>.\<close>

definition py_index :: "'b list \<Rightarrow> nat \<Rightarrow> py_error + 'b" where
  "py_index seq i = (if i < length seq then Inr (seq ! i) else Inl IndexError)"

text \<open>\<^verbatim>\<open>x, y = seq\<close>: anything but two items raises \<^verbatim>\<open>ValueError\<close>.\<close>

fun unpack2 :: "'b list \<Rightarrow> py_error + ('b \<times> 'b)" where
  "unpack2 [x, y] = Inr (x, y)"
| "unpack2 seq = Inl ValueError"

section \<open>The flattener\<close>

text \<open>
  A flattened sequence holds numbers and gaps: \<open>Some v\<close> is the number \<open>v\<close>, and
  \<open>None\<close> is Python's \<^verbatim>\<open>None\<close>, the gap sentinel.

  The loop of the multi-polygon branch, with its two accumulators. The unpacking
  \<^verbatim>\<open>x, y = zip(*poly.exterior.coords)\<close> raises before anything is appended.
\<close>

fun extract_loop ::
  "'a polygon list \<Rightarrow> 'a option list \<Rightarrow> 'a option list \<Rightarrow>
     py_error + ('a option list \<times> 'a option list)" where
  "extract_loop [] x_coords y_coords = Inr (x_coords, y_coords)"
| "extract_loop (poly # rest) x_coords y_coords =
     (case unpack2 (zip_star (map tuple_of (exterior poly))) of
        Inl e \<Rightarrow> Inl e
      | Inr (x, y) \<Rightarrow>
          extract_loop rest (x_coords @ (map Some x @ [None])) (y_coords @ (map Some y @ [None])))"

fun extract_coordinates ::
  "'a geometry \<Rightarrow> py_error + ('a option list \<times> 'a option list)" where
  "extract_coordinates (Polygon geom) =
     (case py_index (zip_star (map tuple_of (exterior geom))) 0 of
        Inl e \<Rightarrow> Inl e
      | Inr x \<Rightarrow>
          (case py_index (zip_star (map tuple_of (exterior geom))) 1 of
             Inl e \<Rightarrow> Inl e
           | Inr y \<Rightarrow> Inr (map Some x, map Some y)))"
| "extract_coordinates (MultiPolygon polys) = extract_loop polys [] []"
| "extract_coordinates geom = Inr ([], [])"

section \<open>Regions and the selection\<close>

text \<open>
  A row of the region table. A column value may be missing (pandas' null), which the
  script allows for: it drops null names before offering them and drops null areas and
  rates before charting. The area and rate columns hold 64-bit floats, and
  \<^verbatim>\<open>Series.sum()\<close> adds them with rounding, in an order the library chooses. Here
  they are rationals and sums are exact, so the sums below stand for the script's only
  where rounding makes no difference: the same rows added in the same order give the
  same sum, and no row gives 0.
\<close>

record region =
  REGION_NAM :: "string option"
  Rate :: "rat option"
  Area :: "rat option"
  geometry :: "rat geometry"

type_synonym attribute_row = "string option \<times> rat option \<times> rat option"

text \<open>\<^verbatim>\<open>Series.dropna()\<close>, \<^verbatim>\<open>Series.unique()\<close> (first occurrences, in order of
  appearance), \<^verbatim>\<open>Series.isin(values)\<close> on one value, and \<^verbatim>\<open>Series.sum()\<close>, which
  skips nulls and is 0 on nothing.\<close>

definition dropna :: "'a option list \<Rightarrow> 'a list" where
  "dropna vs = map the (filter (\<lambda>v. v \<noteq> None) vs)"

definition unique :: "'a list \<Rightarrow> 'a list" where
  "unique vs = rev (remdups (rev vs))"

definition isin :: "string option \<Rightarrow> string list \<Rightarrow> bool" where
  "isin v vals = (case v of None \<Rightarrow> False | Some n \<Rightarrow> n \<in> set vals)"

definition sum_skipna :: "rat option list \<Rightarrow> rat" where
  "sum_skipna vs = sum_list (map (\<lambda>v. case v of None \<Rightarrow> 0 | Some a \<Rightarrow> a) vs)"

text \<open>The names the multi-select control offers.\<close>

definition region_names :: "region list \<Rightarrow> string list" where
  "region_names gdf = sort (unique (dropna (map REGION_NAM gdf)))"

text \<open>\<^verbatim>\<open>gdf[gdf['REGION_NAM'].isin(selected_regions)]\<close> and the three-column view
  \<^verbatim>\<open>[['REGION_NAM', 'Rate', 'Area']]\<close> of a table.\<close>

definition selected_gdf :: "region list \<Rightarrow> string list \<Rightarrow> region list" where
  "selected_gdf gdf selected_regions =
     filter (\<lambda>row. isin (REGION_NAM row) selected_regions) gdf"

definition attribute_view :: "region list \<Rightarrow> attribute_row list" where
  "attribute_view gdf = map (\<lambda>row. (REGION_NAM row, Rate row, Area row)) gdf"

definition selected_area :: "region list \<Rightarrow> string list \<Rightarrow> rat" where
  "selected_area gdf selected_regions =
     sum_skipna (map Area (selected_gdf gdf selected_regions))"

definition total_area :: "region list \<Rightarrow> rat" where
  "total_area gdf = sum_skipna (map Area gdf)"

text \<open>
  The section under \<^verbatim>\<open>if selected_regions:\<close>: the table shown and the two values of
  the pie chart. An empty selection is falsy, and then the section shows nothing.
\<close>

record selection_output =
  dataframe :: "attribute_row list"
  pie_values :: "rat list"

definition selection_section :: "region list \<Rightarrow> string list \<Rightarrow> selection_output option" where
  "selection_section gdf selected_regions =
     (if selected_regions \<noteq> [] then
        Some \<lparr>dataframe = attribute_view (selected_gdf gdf selected_regions),
              pie_values = [selected_area gdf selected_regions,
                            total_area gdf - selected_area gdf selected_regions]\<rparr>
      else None)"

section \<open>The session flag\<close>

text \<open>
  Streamlit reruns the script on every interaction and keeps \<^verbatim>\<open>st.session_state\<close>, a
  dictionary, between the reruns of one session; a new session starts with an empty
  one. The last lines of the script are the only ones that touch it. \<open>button\<close> is
  what \<^verbatim>\<open>st.button\<close> returns in this rerun: whether the user has just pressed it. The
  result is the dictionary after the rerun and whether the new page was shown.
\<close>

type_synonym session_state = "string \<rightharpoonup> bool"

definition new_page_section :: "session_state \<Rightarrow> bool \<Rightarrow> py_error + (session_state \<times> bool)" where
  "new_page_section st button =
     (let st1 = (if st ''show_new_page'' = None then st(''show_new_page'' \<mapsto> False) else st);
          st2 = (if button then st1(''show_new_page'' \<mapsto> True) else st1)
      in case st2 ''show_new_page'' of
           None \<Rightarrow> Inl KeyError
         | Some shown \<Rightarrow> Inr (st2, shown))"

text \<open>A session: the reruns in order, each with its button value.\<close>

fun session :: "session_state \<Rightarrow> bool list \<Rightarrow> py_error + session_state" where
  "session st [] = Inr st"
| "session st (button # later) =
     (case new_page_section st button of
        Inl e \<Rightarrow> Inl e
      | Inr (st', shown) \<Rightarrow> session st' later)"

section \<open>Example tables\<close>

text \<open>Three named regions with areas 10, 20 and 5, and a table with an unnamed region.\<close>

definition demo_gdf :: "region list" where
  "demo_gdf =
     [\<lparr>REGION_NAM = Some ''A'', Rate = Some 1, Area = Some 10, geometry = NoGeometry\<rparr>,
      \<lparr>REGION_NAM = Some ''B'', Rate = Some 2, Area = Some 20, geometry = NoGeometry\<rparr>,
      \<lparr>REGION_NAM = Some ''C'', Rate = Some 3, Area = Some 5, geometry = NoGeometry\<rparr>]"

definition unnamed_gdf :: "region list" where
  "unnamed_gdf =
     [\<lparr>REGION_NAM = None, Rate = Some 1, Area = Some 5, geometry = NoGeometry\<rparr>,
      \<lparr>REGION_NAM = Some ''A'', Rate = Some 2, Area = Some 10, geometry = NoGeometry\<rparr>]"

section \<open>Properties of the flattener\<close>

lemma tuple_lengths:
  "set (map length (map tuple_of ring)) = (\<lambda>c. Suc (Suc (length (higher c)))) ` set ring"
  by (auto simp add: tuple_of_def)

lemma shortest_tuple_ge:
  assumes "ring \<noteq> []"
  shows "2 \<le> Min (set (map length (map tuple_of ring)))"
  unfolding tuple_lengths using assms by (simp add: Min_ge_iff)

lemma shortest_tuple_planar:
  assumes "ring \<noteq> []"
  shows "(Min (set (map length (map tuple_of ring))) = 2) = (\<exists>c \<in> set ring. higher c = [])"
proof
  assume two: "Min (set (map length (map tuple_of ring))) = 2"
  have "Min ((\<lambda>c. Suc (Suc (length (higher c)))) ` set ring)
          \<in> (\<lambda>c. Suc (Suc (length (higher c)))) ` set ring"
    using assms by (intro Min_in) simp_all
  with two show "\<exists>c \<in> set ring. higher c = []"
    unfolding tuple_lengths by auto
next
  assume "\<exists>c \<in> set ring. higher c = []"
  then have "2 \<in> (\<lambda>c. Suc (Suc (length (higher c)))) ` set ring" by force
  then have "Min ((\<lambda>c. Suc (Suc (length (higher c)))) ` set ring) \<le> 2"
    by (intro Min_le) simp_all
  with shortest_tuple_ge [OF assms] show "Min (set (map length (map tuple_of ring))) = 2"
    unfolding tuple_lengths by simp
qed

lemma zip_star_columns:
  assumes "ring \<noteq> []"
  shows "zip_star (map tuple_of ring) =
           map x_of ring # map y_of ring #
           map (\<lambda>i. map (\<lambda>c. tuple_of c ! i) ring)
             [2 ..< Min (set (map length (map tuple_of ring)))]"
proof -
  define n where "n = Min (set (map length (map tuple_of ring)))"
  have "2 \<le> n" unfolding n_def using assms by (rule shortest_tuple_ge)
  then have upt: "[0 ..< n] = 0 # 1 # [2 ..< n]"
    by (simp add: upt_rec [of 0] upt_rec [of 1] upt_rec [of "Suc 0"] numeral_2_eq_2)
  have "zip_star (map tuple_of ring) = map (\<lambda>i. map (\<lambda>row. row ! i) (map tuple_of ring)) [0 ..< n]"
    unfolding n_def zip_star_def using assms by simp
  also have "\<dots> = map x_of ring # map y_of ring # map (\<lambda>i. map (\<lambda>c. tuple_of c ! i) ring) [2 ..< n]"
    unfolding upt by (simp add: tuple_of_def comp_def)
  finally show ?thesis unfolding n_def .
qed

lemma zip_star_length_two:
  "(length (zip_star (map tuple_of ring)) = 2) = (ring \<noteq> [] \<and> (\<exists>c \<in> set ring. higher c = []))"
proof (cases "ring = []")
  case True
  then show ?thesis by (simp add: zip_star_def)
next
  case False
  define n where "n = Min (set (map length (map tuple_of ring)))"
  have ge: "2 \<le> n" unfolding n_def using False by (rule shortest_tuple_ge)
  have "length (zip_star (map tuple_of ring)) = 2 + (n - 2)"
    unfolding n_def by (subst zip_star_columns [OF False]) simp
  with ge have "(length (zip_star (map tuple_of ring)) = 2) = (n = 2)" by auto
  also have "\<dots> = (\<exists>c \<in> set ring. higher c = [])"
    unfolding n_def using False by (rule shortest_tuple_planar)
  finally show ?thesis using False by simp
qed

lemma zip_star_two_columns:
  assumes "length (zip_star (map tuple_of ring)) = 2"
  shows "zip_star (map tuple_of ring) = [map x_of ring, map y_of ring]"
proof -
  from assms have "ring \<noteq> []" by (auto simp add: zip_star_def)
  from zip_star_columns [OF this] assms show ?thesis by simp
qed

lemma unpack2_length:
  "unpack2 seq = (if length seq = 2 then Inr (seq ! 0, seq ! 1) else Inl ValueError)"
  by (induction seq rule: unpack2.induct) simp_all

lemma extract_loop_closed_form:
  "extract_loop polys xa ya =
     (if list_all (\<lambda>p. length (zip_star (map tuple_of (exterior p))) = 2) polys
      then Inr (xa @ concat (map (\<lambda>p. map Some (map x_of (exterior p)) @ [None]) polys),
                ya @ concat (map (\<lambda>p. map Some (map y_of (exterior p)) @ [None]) polys))
      else Inl ValueError)"
proof (induction polys arbitrary: xa ya)
  case Nil
  show ?case by simp
next
  case (Cons poly rest)
  show ?case
  proof (cases "length (zip_star (map tuple_of (exterior poly))) = 2")
    case True
    from zip_star_two_columns [OF True] True show ?thesis
      by (simp add: Cons.IH)
  next
    case False
    then show ?thesis by (simp add: unpack2_length)
  qed
qed

lemma count_None_rings:
  "count_list (concat (map (\<lambda>p. map (Some \<circ> f) (exterior p) @ [None]) polys)) None = length polys"
  by (induction polys) (auto simp add: count_list_0_iff)

lemma length_rings:
  "length (concat (map (\<lambda>p. map (Some \<circ> f) (exterior p) @ [None]) polys)) =
     (\<Sum>p\<leftarrow>polys. Suc (length (exterior p)))"
  by (induction polys) simp_all

lemma gaps_of_rings:
  "map (\<lambda>v. v = None) (concat (map (\<lambda>p. map (Some \<circ> f) (exterior p) @ [None]) polys)) =
     concat (map (\<lambda>p. replicate (length (exterior p)) False @ [True]) polys)"
  by (induction polys) (simp_all add: comp_def map_replicate_const)

lemma polygon_branch:
  "extract_coordinates (Polygon p) =
     (if exterior p = [] then Inl IndexError
      else Inr (map Some (map x_of (exterior p)), map Some (map y_of (exterior p))))"
proof (cases "exterior p = []")
  case True
  then show ?thesis by (simp add: zip_star_def py_index_def)
next
  case False
  from zip_star_columns [OF False] False show ?thesis
    by (simp add: py_index_def)
qed

text \<open>
  Claim C1, for multi-polygons whose sub-polygons all have a non-empty exterior ring of
  planar coordinates: flattening returns, and the x-sequence is the rings'
  x-coordinates, sub-polygon after sub-polygon in the given order, each ring followed
  by one gap sentinel; the same for the y-sequence. Each sequence holds exactly one
  sentinel per sub-polygon, and the two have the same length.
\<close>

theorem multipolygon_gap_after_each_ring:
  assumes "\<forall>p \<in> set polys. exterior p \<noteq> [] \<and> (\<forall>c \<in> set (exterior p). higher c = [])"
  shows "\<exists>xs ys. extract_coordinates (MultiPolygon polys) = Inr (xs, ys) \<and>
           xs = concat (map (\<lambda>p. map Some (map x_of (exterior p)) @ [None]) polys) \<and>
           ys = concat (map (\<lambda>p. map Some (map y_of (exterior p)) @ [None]) polys) \<and>
           count_list xs None = length polys \<and> count_list ys None = length polys \<and>
           length xs = length ys"
proof -
  have "length (zip_star (map tuple_of (exterior p))) = 2" if "p \<in> set polys" for p
  proof -
    from assms that have ring: "exterior p \<noteq> []" and "\<forall>c \<in> set (exterior p). higher c = []"
      by simp_all
    then have "\<exists>c \<in> set (exterior p). higher c = []"
      by (cases "exterior p") auto
    with ring show ?thesis by (simp add: zip_star_length_two)
  qed
  then have "list_all (\<lambda>p. length (zip_star (map tuple_of (exterior p))) = 2) polys"
    by (simp add: list_all_iff)
  then show ?thesis
    by (simp add: extract_loop_closed_form count_None_rings length_rings)
qed

theorem multipolygon_gap_after_each_ring_witness:
  "extract_coordinates (MultiPolygon
      [\<lparr>exterior = [XY 0 0, XY 1 0, XY 1 1, XY 0 0], interiors = []\<rparr>,
       \<lparr>exterior = [XY 2 2, XY 3 2, XY 3 3, XY 2 2], interiors = []\<rparr>]) =
     Inr ([Some 0, Some 1, Some 1, Some 0, None, Some 2, Some 3, Some 3, Some 2, None],
          [Some 0, Some 0, Some 1, Some 0, None, Some 2, Some 2, Some 3, Some (2::rat), None])"
  using multipolygon_gap_after_each_ring
    [of "[\<lparr>exterior = [XY 0 0, XY 1 0, XY 1 1, XY 0 0], interiors = []\<rparr>,
          \<lparr>exterior = [XY 2 2, XY 3 2, XY 3 3, XY 2 (2::rat)], interiors = []\<rparr>]"]
  by simp

text \<open>
  A sub-polygon with an empty exterior ring: \<^verbatim>\<open>zip(*[])\<close> yields nothing, the
  unpacking into \<^verbatim>\<open>x, y\<close> raises, and no sequence is returned. A ring of
  three-component coordinates yields three tuples, and the unpacking raises as well,
  where the polygon branch returns the x- and y-coordinates of the same ring.
\<close>

theorem multipolygon_empty_ring_counterexample:
  "extract_coordinates (MultiPolygon [\<lparr>exterior = ([] :: rat coord list), interiors = []\<rparr>])
     = Inl ValueError \<and>
   extract_coordinates (MultiPolygon
      [\<lparr>exterior = [XYZ 0 0 5, XYZ 1 0 5, XYZ 1 1 5, XYZ 0 0 (5::rat)], interiors = []\<rparr>])
     = Inl ValueError \<and>
   extract_coordinates (Polygon
      \<lparr>exterior = [XYZ 0 0 5, XYZ 1 0 5, XYZ 1 1 5, XYZ 0 0 (5::rat)], interiors = []\<rparr>)
     = Inr ([Some 0, Some 1, Some 1, Some 0], [Some 0, Some 0, Some 1, Some 0])"
  by (simp add: extract_loop_closed_form zip_star_length_two polygon_branch
      del: extract_coordinates.simps(1))

text \<open>
  Claim C2, for simple polygons with a non-empty exterior ring: flattening returns
  the ring's x-coordinates and y-coordinates, in order, as long as the ring, and with
  no gap sentinel in them. The interior rings play no part, nor do further components
  of the coordinates.
\<close>

theorem polygon_ring_verbatim:
  assumes "exterior p \<noteq> []"
  shows "\<exists>xs ys. extract_coordinates (Polygon p) = Inr (xs, ys) \<and>
           xs = map Some (map x_of (exterior p)) \<and> ys = map Some (map y_of (exterior p)) \<and>
           length xs = length (exterior p) \<and> length ys = length (exterior p) \<and>
           None \<notin> set xs \<and> None \<notin> set ys"
  using assms by (auto simp add: polygon_branch simp del: extract_coordinates.simps(1))

theorem polygon_ring_verbatim_witness:
  "extract_coordinates (Polygon \<lparr>exterior = [XY 0 0, XY 4 0, XY 4 3, XY 0 0], interiors = []\<rparr>) =
     Inr ([Some 0, Some 4, Some 4, Some 0], [Some 0, Some 0, Some 3, Some (0::rat)])"
  using polygon_ring_verbatim
    [of "\<lparr>exterior = [XY 0 0, XY 4 0, XY 4 3, XY 0 (0::rat)], interiors = []\<rparr>"]
  by simp

text \<open>
  A simple polygon with an empty exterior ring: the transposed list is empty and its
  index 0 raises, so the ring's (empty) coordinates are not returned.
\<close>

theorem polygon_empty_ring_counterexample:
  "extract_coordinates (Polygon \<lparr>exterior = ([] :: rat coord list), interiors = []\<rparr>)
     = Inl IndexError \<and>
   extract_coordinates (Polygon \<lparr>exterior = ([] :: rat coord list), interiors = []\<rparr>)
     \<noteq> Inr ([], [])"
  by (simp add: polygon_branch del: extract_coordinates.simps(1))

text \<open>
  Claim C3: a multi-polygon with no sub-polygon flattens to two empty sequences, and so
  does every value that is an instance of neither class; no error is raised.
\<close>

theorem unsupported_or_empty_flattens_to_nothing:
  "extract_coordinates (MultiPolygon []) = Inr ([], []) \<and>
   (\<not> isinstance_Polygon g \<and> \<not> isinstance_MultiPolygon g \<longrightarrow>
      extract_coordinates g = Inr ([], []))"
  by (cases g) simp_all

theorem unsupported_or_empty_flattens_to_nothing_witness:
  "\<not> isinstance_Polygon (LineString [XY 0 0, XY 1 (1::rat)]) \<and>
   \<not> isinstance_MultiPolygon (LineString [XY 0 0, XY 1 (1::rat)]) \<and>
   extract_coordinates (LineString [XY 0 0, XY 1 (1::rat)]) = Inr ([], []) \<and>
   extract_coordinates (MultiPolygon ([] :: rat polygon list)) = Inr ([], [])"
  using unsupported_or_empty_flattens_to_nothing [of "LineString [XY 0 0, XY 1 (1::rat)]"]
  by simp

text \<open>
  Claim C4: whenever flattening returns, the two sequences have the same length and the
  gap sentinel stands at the same indices in both.
\<close>

theorem flattened_gaps_aligned:
  assumes "extract_coordinates g = Inr (xs, ys)"
  shows "length xs = length ys \<and> (\<forall>i < length xs. (xs ! i = None) = (ys ! i = None))"
proof -
  have "map (\<lambda>v. v = None) xs = map (\<lambda>v. v = None) ys"
  proof (cases g)
    case (Polygon p)
    with assms show ?thesis
      by (auto simp add: polygon_branch simp del: extract_coordinates.simps(1)
          split: if_splits)
  next
    case (MultiPolygon polys)
    with assms show ?thesis
      by (auto simp add: extract_loop_closed_form gaps_of_rings split: if_splits)
  qed (use assms in simp_all)
  then have len: "length xs = length ys" and
    nth: "\<And>i. i < length xs \<Longrightarrow> map (\<lambda>v. v = None) xs ! i = map (\<lambda>v. v = None) ys ! i"
    by (auto dest: map_eq_imp_length_eq)
  from nth len have "\<forall>i < length xs. (xs ! i = None) = (ys ! i = None)"
    by simp
  with len show ?thesis by simp
qed

theorem flattened_gaps_aligned_witness:
  "extract_coordinates (MultiPolygon
      [\<lparr>exterior = [XY 0 5, XY 1 6, XY 1 5, XY 0 5], interiors = []\<rparr>,
       \<lparr>exterior = [XY 2 7, XY 3 7, XY 3 8, XY 2 (7::rat)], interiors = []\<rparr>]) =
     Inr ([Some 0, Some 1, Some 1, Some 0, None, Some 2, Some 3, Some 3, Some 2, None],
          [Some 5, Some 6, Some 5, Some 5, None, Some 7, Some 7, Some 8, Some 7, None]) \<and>
   length [Some 0, Some 1, Some 1, Some 0, None, Some 2, Some 3, Some 3, Some (2::rat), None] =
     length [Some 5, Some 6, Some 5, Some 5, None, Some 7, Some 7, Some 8, Some (7::rat), None] \<and>
   ([Some 0, Some 1, Some 1, Some 0, None, Some 2, Some 3, Some 3, Some (2::rat), None] ! 4 = None) =
     ([Some 5, Some 6, Some 5, Some 5, None, Some 7, Some 7, Some 8, Some (7::rat), None] ! 4 = None)"
proof -
  have run: "extract_coordinates (MultiPolygon
      [\<lparr>exterior = [XY 0 5, XY 1 6, XY 1 5, XY 0 5], interiors = []\<rparr>,
       \<lparr>exterior = [XY 2 7, XY 3 7, XY 3 8, XY 2 (7::rat)], interiors = []\<rparr>]) =
     Inr ([Some 0, Some 1, Some 1, Some 0, None, Some 2, Some 3, Some 3, Some 2, None],
          [Some 5, Some 6, Some 5, Some 5, None, Some 7, Some 7, Some 8, Some 7, None])"
    by (simp add: extract_loop_closed_form zip_star_length_two)
  from flattened_gaps_aligned [OF run] run show ?thesis by simp
qed

text \<open>
  Claim C10: on a simple polygon the flattener raises \<^verbatim>\<open>IndexError\<close> exactly when the
  exterior ring has no coordinate, and returns a value exactly when it has one or
  more.
\<close>

theorem polygon_partial_on_empty_ring:
  "(extract_coordinates (Polygon p) = Inl IndexError) = (exterior p = []) \<and>
   (\<exists>r. extract_coordinates (Polygon p) = Inr r) = (exterior p \<noteq> [])"
  by (simp add: polygon_branch del: extract_coordinates.simps(1))

theorem polygon_partial_on_empty_ring_witness:
  "extract_coordinates (Polygon \<lparr>exterior = ([] :: rat coord list), interiors = []\<rparr>)
     = Inl IndexError \<and>
   (\<exists>r. extract_coordinates
      (Polygon \<lparr>exterior = [XY 0 0, XY 4 0, XY 4 3, XY 0 (0::rat)], interiors = []\<rparr>) = Inr r)"
  using polygon_partial_on_empty_ring [of "\<lparr>exterior = ([] :: rat coord list), interiors = []\<rparr>"]
    polygon_partial_on_empty_ring
      [of "\<lparr>exterior = [XY 0 0, XY 4 0, XY 4 3, XY 0 (0::rat)], interiors = []\<rparr>"]
  by (simp del: extract_coordinates.simps(1))

section \<open>Properties of the selection\<close>

lemma set_dropna: "set (dropna vs) = {n. Some n \<in> set vs}"
  by (force simp add: dropna_def image_iff)

lemma set_region_names: "set (region_names gdf) = {n. Some n \<in> REGION_NAM ` set gdf}"
  by (simp add: region_names_def unique_def set_dropna)

lemma isin_iff: "isin v vals = (\<exists>n \<in> set vals. v = Some n)"
  by (cases v) (auto simp add: isin_def)

lemma selected_gdf_all:
  assumes "\<forall>row \<in> set gdf. REGION_NAM row \<noteq> None"
    and "set sel = set (region_names gdf)"
  shows "selected_gdf gdf sel = gdf"
proof -
  have "isin (REGION_NAM row) sel" if "row \<in> set gdf" for row
  proof -
    from that assms(1) obtain n where n: "REGION_NAM row = Some n" by auto
    with that have "Some n \<in> REGION_NAM ` set gdf" by force
    with assms(2) have "n \<in> set sel" by (simp add: set_region_names)
    with n show ?thesis by (simp add: isin_def)
  qed
  then show ?thesis
    by (simp add: selected_gdf_def)
qed

text \<open>
  Claim C6, for tables in which every region has a name: with every offered name
  selected (in any order), the selected area is the total area and the filter keeps
  every row in the original order; when the table has a row at all, the section shows
  that full view and the pie values total area and 0.
\<close>

theorem select_all_names:
  assumes "\<forall>row \<in> set gdf. REGION_NAM row \<noteq> None"
    and "set sel = set (region_names gdf)"
  shows "selected_area gdf sel = total_area gdf \<and>
         attribute_view (selected_gdf gdf sel) = attribute_view gdf \<and>
         (gdf \<noteq> [] \<longrightarrow>
            selection_section gdf sel =
              Some \<lparr>dataframe = attribute_view gdf, pie_values = [total_area gdf, 0]\<rparr>)"
proof -
  have all: "selected_gdf gdf sel = gdf"
    using assms by (rule selected_gdf_all)
  have area: "selected_area gdf sel = total_area gdf"
    by (simp add: selected_area_def total_area_def all)
  have "sel \<noteq> []" if "gdf \<noteq> []"
  proof -
    from that obtain row where "row \<in> set gdf" by (cases gdf) auto
    with assms(1) obtain n where "REGION_NAM row = Some n" by auto
    with \<open>row \<in> set gdf\<close> have "n \<in> set (region_names gdf)"
      by (force simp add: set_region_names)
    with assms(2) show ?thesis by auto
  qed
  then show ?thesis
    by (simp add: all area selection_section_def)
qed

theorem select_all_names_witness:
  "region_names demo_gdf = [''A'', ''B'', ''C''] \<and>
   selected_area demo_gdf [''C'', ''A'', ''B''] = total_area demo_gdf \<and>
   selection_section demo_gdf [''C'', ''A'', ''B''] =
     Some \<lparr>dataframe = attribute_view demo_gdf, pie_values = [total_area demo_gdf, 0]\<rparr>"
proof -
  have names: "region_names demo_gdf = [''A'', ''B'', ''C'']"
    by code_simp
  have named: "\<forall>row \<in> set demo_gdf. REGION_NAM row \<noteq> None"
    by (simp add: demo_gdf_def)
  have offered: "set [''C'', ''A'', ''B''] = set (region_names demo_gdf)"
    unfolding names by auto
  have "demo_gdf \<noteq> []" by (simp add: demo_gdf_def)
  with select_all_names [OF named offered] names show ?thesis by simp
qed

text \<open>
  A region without a name is never offered by the control, so selecting every offered
  name leaves it out of the view and of the selected area. With no region at all
  nothing is offered, the selection is empty, and the section is not shown.
\<close>

theorem select_all_names_counterexample:
  "region_names unnamed_gdf = [''A''] \<and>
   selected_area unnamed_gdf [''A''] = 10 \<and> total_area unnamed_gdf = 15 \<and>
   attribute_view (selected_gdf unnamed_gdf [''A'']) = [(Some ''A'', Some 2, Some 10)] \<and>
   attribute_view unnamed_gdf = [(None, Some 1, Some 5), (Some ''A'', Some 2, Some 10)] \<and>
   region_names [] = [] \<and> selection_section [] [] = None"
  by code_simp

text \<open>
  Claim C7, as the script has it: with the empty selection the section is skipped, so
  no table and no selected area are produced. The filter and the sum it would have
  used give the empty view and 0 there.
\<close>

theorem empty_selection_skips_section:
  "selection_section gdf [] = None \<and>
   attribute_view (selected_gdf gdf []) = [] \<and>
   selected_area gdf [] = 0"
  by (simp add: selection_section_def selected_gdf_def selected_area_def attribute_view_def
      isin_def sum_skipna_def split: option.split)

theorem empty_selection_skips_section_witness:
  "selection_section demo_gdf [] = None \<and> selected_area demo_gdf [] = 0 \<and>
   attribute_view (selected_gdf demo_gdf []) = []"
  using empty_selection_skips_section [of demo_gdf] by simp

text \<open>
  The empty selection on the three-region table: no output at all, where the claim
  has a selected area of 0 and an empty view.
\<close>

theorem empty_selection_counterexample:
  "selection_section demo_gdf [] = None"
  by (simp add: selection_section_def)

lemma selected_gdf_absent:
  assumes "\<forall>n \<in> set extra. Some n \<notin> REGION_NAM ` set gdf"
  shows "selected_gdf gdf (sel @ extra) = selected_gdf gdf sel"
  unfolding selected_gdf_def
proof (rule filter_cong [OF refl])
  fix row assume "row \<in> set gdf"
  then have "n \<notin> set extra" if "REGION_NAM row = Some n" for n
    using assms that by (metis imageI)
  then show "isin (REGION_NAM row) (sel @ extra) = isin (REGION_NAM row) sel"
    by (cases "REGION_NAM row") (auto simp add: isin_def)
qed

text \<open>
  Claim C8: the filter keeps exactly the rows whose name is in the selection; the view
  shown is the full view restricted to those names, hence a subsequence of it (the
  original relative order); selected names that no region bears change neither the
  rows kept nor the selected area; and for a non-empty selection the section returns
  this view, there being no error branch.
\<close>

theorem filtered_view_exact:
  "selected_gdf gdf sel = filter (\<lambda>row. \<exists>n \<in> set sel. REGION_NAM row = Some n) gdf \<and>
   attribute_view (selected_gdf gdf sel) =
     filter (\<lambda>(name, rate, area). \<exists>n \<in> set sel. name = Some n) (attribute_view gdf) \<and>
   subseq (attribute_view (selected_gdf gdf sel)) (attribute_view gdf) \<and>
   ((\<forall>n \<in> set extra. Some n \<notin> REGION_NAM ` set gdf) \<longrightarrow>
      selected_gdf gdf (sel @ extra) = selected_gdf gdf sel \<and>
      selected_area gdf (sel @ extra) = selected_area gdf sel) \<and>
   (sel \<noteq> [] \<longrightarrow>
      (\<exists>out. selection_section gdf sel = Some out \<and>
         dataframe out = attribute_view (selected_gdf gdf sel)))"
proof -
  have rows: "selected_gdf gdf sel = filter (\<lambda>row. \<exists>n \<in> set sel. REGION_NAM row = Some n) gdf"
    by (simp add: selected_gdf_def isin_iff)
  have view: "attribute_view (selected_gdf gdf sel) =
     filter (\<lambda>(name, rate, area). \<exists>n \<in> set sel. name = Some n) (attribute_view gdf)"
    by (simp add: rows attribute_view_def filter_map comp_def)
  have order: "subseq (attribute_view (selected_gdf gdf sel)) (attribute_view gdf)"
    unfolding view by (rule subseq_filter_left)
  have absent: "selected_gdf gdf (sel @ extra) = selected_gdf gdf sel \<and>
      selected_area gdf (sel @ extra) = selected_area gdf sel"
    if "\<forall>n \<in> set extra. Some n \<notin> REGION_NAM ` set gdf"
    using selected_gdf_absent [OF that] by (simp add: selected_area_def)
  have shown: "\<exists>out. selection_section gdf sel = Some out \<and>
         dataframe out = attribute_view (selected_gdf gdf sel)" if "sel \<noteq> []"
    using that by (simp add: selection_section_def)
  from rows view order absent shown show ?thesis by blast
qed

theorem filtered_view_exact_witness:
  "attribute_view (selected_gdf demo_gdf [''C'', ''A'']) =
     [(Some ''A'', Some 1, Some 10), (Some ''C'', Some 3, Some 5)] \<and>
   selected_gdf demo_gdf ([''C'', ''A''] @ [''Z'']) = selected_gdf demo_gdf [''C'', ''A''] \<and>
   selected_area demo_gdf ([''C'', ''A''] @ [''Z'']) = 15 \<and>
   map_option dataframe (selection_section demo_gdf [''C'', ''A'']) =
     Some [(Some ''A'', Some 1, Some 10), (Some ''C'', Some 3, Some 5)]"
proof -
  have absent: "\<forall>n \<in> set [''Z'']. Some n \<notin> REGION_NAM ` set demo_gdf"
    by (simp add: demo_gdf_def)
  have view: "attribute_view (selected_gdf demo_gdf [''C'', ''A'']) =
     [(Some ''A'', Some 1, Some 10), (Some ''C'', Some 3, Some 5)]"
    by (simp add: demo_gdf_def attribute_view_def selected_gdf_def isin_def)
  have area: "selected_area demo_gdf [''C'', ''A''] = 15"
    by (simp add: demo_gdf_def selected_area_def selected_gdf_def isin_def sum_skipna_def)
  from filtered_view_exact [of demo_gdf "[''C'', ''A'']" "[''Z'']"] absent view area
  show ?thesis by auto
qed

section \<open>Properties of the session flag\<close>

lemma new_page_section_set:
  "st ''show_new_page'' = Some v \<Longrightarrow>
     new_page_section st button = Inr (if button then st(''show_new_page'' \<mapsto> True) else st, v \<or> button)"
  by (auto simp add: new_page_section_def)

lemma new_page_section_unset:
  "st ''show_new_page'' = None \<Longrightarrow>
     new_page_section st button = Inr (st(''show_new_page'' \<mapsto> button), button)"
  by (cases button) (simp_all add: new_page_section_def)

lemma session_from_set:
  "st ''show_new_page'' = Some v \<Longrightarrow>
     \<exists>st'. session st buttons = Inr st' \<and> st' ''show_new_page'' = Some (v \<or> True \<in> set buttons)"
proof (induction buttons arbitrary: st v)
  case Nil
  then show ?case by simp
next
  case (Cons button later)
  let ?st1 = "if button then st(''show_new_page'' \<mapsto> True) else st"
  have step: "new_page_section st button = Inr (?st1, v \<or> button)"
    using Cons.prems by (rule new_page_section_set)
  have flag: "?st1 ''show_new_page'' = Some (v \<or> button)"
    using Cons.prems by simp
  from Cons.IH [of ?st1 "v \<or> button"] flag obtain st' where
    "session ?st1 later = Inr st'" "st' ''show_new_page'' = Some ((v \<or> button) \<or> True \<in> set later)"
    by blast
  with step show ?case by (cases button) auto
qed

lemma session_from_start:
  assumes "buttons \<noteq> []"
  shows "\<exists>st'. session Map.empty buttons = Inr st' \<and>
           st' ''show_new_page'' = Some (True \<in> set buttons)"
proof -
  from assms obtain button later where buttons: "buttons = button # later"
    by (cases buttons) auto
  have step: "new_page_section Map.empty button = Inr ([''show_new_page'' \<mapsto> button], button)"
    by (simp add: new_page_section_unset)
  have "\<exists>st'. session [''show_new_page'' \<mapsto> button] later = Inr st' \<and>
          st' ''show_new_page'' = Some (button \<or> True \<in> set later)"
    by (rule session_from_set) simp
  with step buttons show ?thesis
    by (cases button) auto
qed

text \<open>
  Claim C9: the first rerun of a session, the button not pressed, sets the flag to off
  and does not show the new page; a rerun with the button pressed leaves the flag on;
  a rerun always succeeds, shows the new page exactly when the flag is on after it,
  and changes no other key; a rerun without a press leaves a flag that is set as it
  is; so after any reruns of a session the flag is on exactly when the button was
  pressed in one of them.
\<close>

theorem show_new_page_flag:
  "new_page_section Map.empty False = Inr ([''show_new_page'' \<mapsto> False], False) \<and>
   (\<exists>st'. new_page_section st True = Inr (st', True) \<and> st' ''show_new_page'' = Some True) \<and>
   (\<exists>st' shown. new_page_section st button = Inr (st', shown) \<and>
       shown = (st' ''show_new_page'' = Some True) \<and>
       (\<forall>k. k \<noteq> ''show_new_page'' \<longrightarrow> st' k = st k)) \<and>
   (st ''show_new_page'' = Some v \<longrightarrow> new_page_section st False = Inr (st, v)) \<and>
   (buttons \<noteq> [] \<longrightarrow>
      (\<exists>st'. session Map.empty buttons = Inr st' \<and>
         st' ''show_new_page'' = Some (True \<in> set buttons)))"
proof -
  have init: "new_page_section Map.empty False = Inr ([''show_new_page'' \<mapsto> False], False)"
    by (simp add: new_page_section_unset)
  have press: "\<exists>st'. new_page_section st True = Inr (st', True) \<and> st' ''show_new_page'' = Some True"
    by (cases "st ''show_new_page''") (simp_all add: new_page_section_set new_page_section_unset)
  have shown: "\<exists>st' shown. new_page_section st button = Inr (st', shown) \<and>
       shown = (st' ''show_new_page'' = Some True) \<and>
       (\<forall>k. k \<noteq> ''show_new_page'' \<longrightarrow> st' k = st k)"
    by (cases "st ''show_new_page''")
      (auto simp add: new_page_section_set new_page_section_unset)
  have keep: "st ''show_new_page'' = Some v \<longrightarrow> new_page_section st False = Inr (st, v)"
    by (simp add: new_page_section_set)
  from init press shown keep session_from_start show ?thesis by blast
qed

theorem show_new_page_flag_witness:
  "new_page_section Map.empty False = Inr ([''show_new_page'' \<mapsto> False], False) \<and>
   new_page_section [''show_new_page'' \<mapsto> True] False = Inr ([''show_new_page'' \<mapsto> True], True) \<and>
   (\<exists>st'. session Map.empty [False, True, False] = Inr st' \<and> st' ''show_new_page'' = Some True)"
  using show_new_page_flag [of "[''show_new_page'' \<mapsto> True]" False True "[False, True, False]"]
  by (simp add: new_page_section_def)

end
